theory Spec2Isabelle
  imports Main "HOL-Library.Sublist"
begin

section \<open>The Elasticsearch search engine of mediathekviewweb\<close>

text \<open>
  The development embeds the class \<^verbatim>\<open>ElasticsearchSearchEngine\<close> of
  \<^verbatim>\<open>server/src/search-engine/elasticsearch/search-engine.ts\<close>. The class talks to
  three collaborators it does not define: the Elasticsearch client held in its field
  \<^verbatim>\<open>client\<close>, the function \<^verbatim>\<open>Converter.convert\<close> and the helper \<^verbatim>\<open>sleep\<close>;
  it also writes to the console. The client is a record of functions over an abstract
  backend state, the converter is a parameter of \<^verbatim>\<open>search\<close>, and every call that
  leaves the class is appended to a trace, together with the error it raised, if any.
\<close>

subsection \<open>Values and errors\<close>

text \<open>
  A JavaScript value as it crosses the client: documents, settings, mappings and queries
  are all of this type (the type parameter \<^verbatim>\<open>T\<close> is erased at run time). An object
  is the list of its own enumerable properties, which is what the client serialises. The
  code never inspects a number, so numbers are integers here.
\<close>

datatype json =
    JNull
  | JBool bool
  | JNum int
  | JStr string
  | JArr "json list"
  | JObj "(string \<times> json) list"

text \<open>
  One item of a bulk response, \<^verbatim>\<open>{ [key]: { [key]: any, status: number, error?: any } }\<close>:
  the outcome of one action, under the action's name.
\<close>

record BulkItemOutcome =
  status :: int
  error :: "json option"
  other :: "(string \<times> json) list"

type_synonym BulkItem = "(string \<times> BulkItemOutcome) list"

text \<open>\<^verbatim>\<open>ElasticsearchBulkResponse = { took, errors, items }\<close>.\<close>

record ElasticsearchBulkResponse =
  took :: int
  errors :: bool
  items :: "BulkItem list"

text \<open>
  What a promise is rejected with. \<^verbatim>\<open>ClientError\<close> is a rejection raised by a
  collaborator (the Elasticsearch client or the converter). \<^verbatim>\<open>Error r\<close> is the
  \<^verbatim>\<open>new Error(JSON.stringify(response, null, 2))\<close> of \<^verbatim>\<open>index\<close>: its message is
  the JSON text of the whole bulk response \<open>r\<close>, and the model keeps the serialised value
  in place of its text.
\<close>

datatype js_error =
    ClientError string
  | Error ElasticsearchBulkResponse

subsection \<open>The Elasticsearch client\<close>

text \<open>The argument of \<^verbatim>\<open>client.bulk\<close>: \<^verbatim>\<open>{ body, index, type }\<close>.\<close>

record BulkRequest =
  body :: "json list"
  bulk_index :: string
  bulk_type :: string

text \<open>
  The part of a search response that \<^verbatim>\<open>search\<close> reads:
  \<^verbatim>\<open>{ took, hits: { total, hits: [{ _source }] } }\<close>.
\<close>

record Hit =
  hit_source :: json

record SearchResponse =
  response_took :: int
  hits_total :: int
  hits_hits :: "Hit list"

text \<open>
  The methods of \<^verbatim>\<open>Elasticsearch.Client\<close> that the class calls. Each takes the state
  of the backend and returns its answer, or the error the promise is rejected with, and
  the state of the backend after the call. \<^verbatim>\<open>ping\<close> takes its \<^verbatim>\<open>requestTimeout\<close>,
  the methods of \<^verbatim>\<open>client.indices\<close> take the index name first.
\<close>

record 'b Client =
  ping :: "nat \<Rightarrow> 'b \<Rightarrow> (js_error + unit) \<times> 'b"
  indices_exists :: "string \<Rightarrow> 'b \<Rightarrow> (js_error + bool) \<times> 'b"
  indices_create :: "string \<Rightarrow> 'b \<Rightarrow> (js_error + unit) \<times> 'b"
  indices_close :: "string \<Rightarrow> 'b \<Rightarrow> (js_error + unit) \<times> 'b"
  indices_putSettings :: "string \<Rightarrow> json \<Rightarrow> 'b \<Rightarrow> (js_error + unit) \<times> 'b"
  indices_putMapping :: "string \<Rightarrow> string \<Rightarrow> json \<Rightarrow> 'b \<Rightarrow> (js_error + unit) \<times> 'b"
  indices_open :: "string \<Rightarrow> 'b \<Rightarrow> (js_error + unit) \<times> 'b"
  indices_refresh :: "string \<Rightarrow> 'b \<Rightarrow> (js_error + unit) \<times> 'b"
  indices_delete :: "string \<Rightarrow> 'b \<Rightarrow> (js_error + unit) \<times> 'b"
  bulk :: "BulkRequest \<Rightarrow> 'b \<Rightarrow> (js_error + ElasticsearchBulkResponse) \<times> 'b"
  client_search :: "json \<Rightarrow> 'b \<Rightarrow> (js_error + SearchResponse) \<times> 'b"

subsection \<open>The class and the state of a run\<close>

text \<open>The fields of \<^verbatim>\<open>ElasticsearchSearchEngine\<close>.\<close>

record 'b ElasticsearchSearchEngine =
  indexName :: string
  typeName :: string
  client :: "'b Client"
  indexSettings :: "json option"
  mapping :: "json option"

text \<open>
  The own properties of the object that \<^verbatim>\<open>obj = {}; obj[key] = value\<close> leaves: one
  property, except for the key \<^verbatim>\<open>__proto__\<close>, where the assignment goes to the
  prototype of the object and adds no property.
\<close>

definition own_properties_after_set :: "string \<Rightarrow> json \<Rightarrow> (string \<times> json) list" where
  "own_properties_after_set key v = (if key = ''__proto__'' then [] else [(key, v)])"

text \<open>
  The constructor: the mapping is stored under the type name,
  \<^verbatim>\<open>this.mapping = {}; this.mapping[typeName] = indexMapping\<close>, when one is given.
\<close>

definition new_ElasticsearchSearchEngine ::
  "'b Client \<Rightarrow> string \<Rightarrow> string \<Rightarrow> json option \<Rightarrow> json option \<Rightarrow> 'b ElasticsearchSearchEngine" where
  "new_ElasticsearchSearchEngine c iName tName iSettings iMapping =
     \<lparr> indexName = iName,
       typeName = tName,
       client = c,
       indexSettings = iSettings,
       mapping = (case iMapping of
                    None \<Rightarrow> None
                  | Some m \<Rightarrow> Some (JObj (own_properties_after_set tName m))) \<rparr>"

text \<open>A call that leaves the class.\<close>

datatype call =
    Ping nat
  | IndexExists string
  | CreateIndex string
  | CloseIndex string
  | PutIndexSettings string json
  | PutIndexMapping string string json
  | OpenIndex string
  | RefreshIndex string
  | DeleteIndex string
  | BulkWrite BulkRequest
  | Query json
  | Convert json string string
  | Sleep nat
  | ConsoleLog json

text \<open>
  The state of a run: the object, the backend behind its client, and the calls made so
  far, oldest first, each with the error it was rejected with.
\<close>

record 'b state =
  this :: "'b ElasticsearchSearchEngine"
  backend :: 'b
  trace :: "(call \<times> js_error option) list"

type_synonym ('a, 'b) async = "'b state \<Rightarrow> (js_error + 'a) \<times> 'b state"

definition rejection :: "js_error + 'a \<Rightarrow> js_error option" where
  "rejection r = (case r of Inl e \<Rightarrow> Some e | Inr _ \<Rightarrow> None)"

text \<open>\<open>invoke c f\<close> runs the client method \<open>f\<close> on the backend and records it as \<open>c\<close>.\<close>

definition invoke :: "call \<Rightarrow> ('b \<Rightarrow> (js_error + 'a) \<times> 'b) \<Rightarrow> ('a, 'b) async" where
  "invoke c f s =
     (case f (backend s) of
        (r, b) \<Rightarrow> (r, s\<lparr>backend := b, trace := trace s @ [(c, rejection r)]\<rparr>))"

text \<open>A call that cannot fail and does not reach the backend.\<close>

definition emit :: "call \<Rightarrow> 'b state \<Rightarrow> 'b state" where
  "emit c s = s\<lparr>trace := trace s @ [(c, None)]\<rparr>"

text \<open>
  Modelled from the spec: \<^verbatim>\<open>sleep\<close> of \<^verbatim>\<open>common/utils\<close> is not among the sources. The
  spec has the gate ``wait a fixed backoff interval''; the call is recorded with its
  duration in milliseconds and returns.
\<close>

definition sleep :: "nat \<Rightarrow> 'b state \<Rightarrow> 'b state" where
  "sleep ms = emit (Sleep ms)"

text \<open>\<^verbatim>\<open>console.log\<close> of one value.\<close>

definition console_log :: "json \<Rightarrow> 'b state \<Rightarrow> 'b state" where
  "console_log v = emit (ConsoleLog v)"

text \<open>\<^verbatim>\<open>await m; k\<close>: a rejection of \<open>m\<close> ends the method.\<close>

definition await :: "('a, 'b) async \<Rightarrow> ('a \<Rightarrow> ('c, 'b) async) \<Rightarrow> ('c, 'b) async" where
  "await m k s = (case m s of (Inl e, s') \<Rightarrow> (Inl e, s') | (Inr x, s') \<Rightarrow> k x s')"

definition resolve :: "'a \<Rightarrow> ('a, 'b) async" where
  "resolve x s = (Inr x, s)"

definition reject :: "js_error \<Rightarrow> ('a, 'b) async" where
  "reject e s = (Inl e, s)"

subsection \<open>The private methods\<close>

text \<open>
  \<^verbatim>\<open>waitForConnection\<close>: the body of the \<^verbatim>\<open>do ... while (!success)\<close> loop pings,
  logs, sleeps, and only then tests \<^verbatim>\<open>success\<close>. The \<^verbatim>\<open>catch\<close> swallows every
  rejection of the ping, so the method never rejects; it may run forever, which is the
  value \<open>None\<close>. The two console messages are named.
\<close>

definition msg_connected :: json where
  "msg_connected = JStr ''connected to elasticsearch''"

definition msg_trying_again :: json where
  "msg_trying_again = JStr ''couldn't connect to elasticsearch, trying again...''"

partial_function (option) waitForConnection :: "'b state \<Rightarrow> 'b state option" where
  "waitForConnection s =
     (case invoke (Ping 250) (ping (client (this s)) 250) s of
        (r, s1) \<Rightarrow>
          let success = (case r of Inr _ \<Rightarrow> True | Inl _ \<Rightarrow> False);
              s2 = (if success
                    then console_log msg_connected s1
                    else console_log msg_trying_again s1);
              s3 = sleep 2000 s2
          in if success then Some s3 else waitForConnection s3)"

declare waitForConnection.simps [code]

text \<open>\<^verbatim>\<open>ensureIndex\<close>.\<close>

definition ensureIndex :: "(unit, 'b) async" where
  "ensureIndex s =
     await (invoke (IndexExists (indexName (this s)))
              (indices_exists (client (this s)) (indexName (this s))))
       (\<lambda>indexExists.
          if \<not> indexExists
          then invoke (CreateIndex (indexName (this s)))
                 (indices_create (client (this s)) (indexName (this s)))
          else resolve ()) s"

subsection \<open>The public methods\<close>

text \<open>
  The block of \<^verbatim>\<open>initialize\<close> under
  \<^verbatim>\<open>if (this.indexSettings != undefined || this.mapping != undefined)\<close>.
\<close>

definition applyConfiguration :: "(unit, 'b) async" where
  "applyConfiguration s =
     (let e = this s; c = client e; n = indexName e in
      await (invoke (CloseIndex n) (indices_close c n))
        (\<lambda>_. await (case indexSettings e of
                       Some st \<Rightarrow> invoke (PutIndexSettings n st) (indices_putSettings c n st)
                     | None \<Rightarrow> resolve ())
          (\<lambda>_. await (case mapping e of
                         Some m \<Rightarrow> invoke (PutIndexMapping n (typeName e) m)
                                     (indices_putMapping c n (typeName e) m)
                       | None \<Rightarrow> resolve ())
            (\<lambda>_. await (invoke (OpenIndex n) (indices_open c n))
              (\<lambda>_. invoke (RefreshIndex n) (indices_refresh c n))))) s)"

text \<open>\<^verbatim>\<open>initialize\<close> after the connection gate has returned.\<close>

definition initialize_connected :: "(unit, 'b) async" where
  "initialize_connected s =
     await ensureIndex
       (\<lambda>_ s'. if indexSettings (this s') \<noteq> None \<or> mapping (this s') \<noteq> None
               then applyConfiguration s'
               else resolve () s') s"

text \<open>\<^verbatim>\<open>initialize\<close>.\<close>

definition initialize :: "'b state \<Rightarrow> ((js_error + unit) \<times> 'b state) option" where
  "initialize s =
     (case waitForConnection s of
        None \<Rightarrow> None
      | Some s1 \<Rightarrow> Some (initialize_connected s1))"

text \<open>\<^verbatim>\<open>SearchEngineItem<T> = { id, document }\<close>.\<close>

record SearchEngineItem =
  id :: string
  document :: json

text \<open>
  \<^verbatim>\<open>index\<close>: the \<^verbatim>\<open>for ... of\<close> loop pushes two entries for each item onto the body of
  the request, starting from the empty body.
\<close>

definition push_item :: "json list \<Rightarrow> SearchEngineItem \<Rightarrow> json list" where
  "push_item b item = b @ [JObj [(''index'', JObj [(''_id'', JStr (id item))])], document item]"

definition bulkRequest_of :: "'b ElasticsearchSearchEngine \<Rightarrow> SearchEngineItem list \<Rightarrow> BulkRequest" where
  "bulkRequest_of e its =
     foldl (\<lambda>req item. req\<lparr>body := push_item (body req) item\<rparr>)
       \<lparr> body = [], bulk_index = indexName e, bulk_type = typeName e \<rparr> its"

definition index :: "SearchEngineItem list \<Rightarrow> (unit, 'b) async" where
  "index its s =
     (let bulkRequest = bulkRequest_of (this s) its in
      await (invoke (BulkWrite bulkRequest) (bulk (client (this s)) bulkRequest))
        (\<lambda>response. if errors response then reject (Error response) else resolve ()) s)"

text \<open>\<^verbatim>\<open>SearchResult<T> = { total, milliseconds, items }\<close>.\<close>

record SearchResult =
  total :: int
  milliseconds :: int
  result_items :: "json list"

text \<open>
  \<^verbatim>\<open>search\<close>. \<^verbatim>\<open>Converter.convert\<close> is not among the sources: it is the parameter
  \<open>convert\<close>, which takes the query, the index name and the type name and returns the
  backend query or the error it throws.
\<close>

definition search ::
  "(json \<Rightarrow> string \<Rightarrow> string \<Rightarrow> js_error + json) \<Rightarrow> json \<Rightarrow> (SearchResult, 'b) async" where
  "search convert query s =
     await (invoke (Convert query (indexName (this s)) (typeName (this s)))
              (\<lambda>b. (convert query (indexName (this s)) (typeName (this s)), b)))
       (\<lambda>elasticsearchQuery s1.
          await (invoke (Query elasticsearchQuery) (client_search (client (this s1)) elasticsearchQuery))
            (\<lambda>result.
               resolve \<lparr> total = hits_total result,
                         milliseconds = response_took result,
                         result_items = map hit_source (hits_hits result) \<rparr>)
            (console_log elasticsearchQuery s1)) s"

text \<open>\<^verbatim>\<open>drop\<close>, here \<open>drop_index\<close>: \<open>drop\<close> is a function on lists.\<close>

definition drop_index :: "'b state \<Rightarrow> ((js_error + unit) \<times> 'b state) option" where
  "drop_index s =
     (case invoke (DeleteIndex (indexName (this s)))
             (indices_delete (client (this s)) (indexName (this s))) s of
        (Inl e, s1) \<Rightarrow> Some (Inl e, s1)
      | (Inr _, s1) \<Rightarrow> initialize s1)"

subsection \<open>A caller\<close>

text \<open>
  The public operations, and a caller that runs a list of them one after the other on the
  same object, going on after a rejected one as after a fulfilled one. A run that never
  returns from a connection gate is \<open>None\<close>.
\<close>

datatype operation =
    Initialize
  | Index "SearchEngineItem list"
  | Search json
  | Drop

definition forget :: "(js_error + 'a) \<times> 'b state \<Rightarrow> (js_error + unit) \<times> 'b state" where
  "forget p = (case p of (Inl e, s) \<Rightarrow> (Inl e, s) | (Inr _, s) \<Rightarrow> (Inr (), s))"

fun run_operation ::
  "(json \<Rightarrow> string \<Rightarrow> string \<Rightarrow> js_error + json) \<Rightarrow> operation \<Rightarrow> 'b state \<Rightarrow>
     ((js_error + unit) \<times> 'b state) option" where
  "run_operation convert Initialize s = initialize s"
| "run_operation convert (Index its) s = Some (index its s)"
| "run_operation convert (Search q) s = Some (forget (search convert q s))"
| "run_operation convert Drop s = drop_index s"

fun run_operations ::
  "(json \<Rightarrow> string \<Rightarrow> string \<Rightarrow> js_error + json) \<Rightarrow> operation list \<Rightarrow> 'b state \<Rightarrow>
     'b state option" where
  "run_operations convert [] s = Some s"
| "run_operations convert (x # xs) s =
     (case run_operation convert x s of
        None \<Rightarrow> None
      | Some (_, s1) \<Rightarrow> run_operations convert xs s1)"

subsection \<open>Notions used to state the properties\<close>

text \<open>
  The calls of the configuration protocol, in the order close, settings, mapping, open,
  refresh; the two in the middle only for the settings and the mapping that the object
  holds.
\<close>

definition configuration_sequence :: "'b ElasticsearchSearchEngine \<Rightarrow> call list" where
  "configuration_sequence e =
     [CloseIndex (indexName e)] @
     (case indexSettings e of Some st \<Rightarrow> [PutIndexSettings (indexName e) st] | None \<Rightarrow> []) @
     (case mapping e of Some m \<Rightarrow> [PutIndexMapping (indexName e) (typeName e) m] | None \<Rightarrow> []) @
     [OpenIndex (indexName e), RefreshIndex (indexName e)]"

text \<open>
  \<open>stops_at_rejection planned evs r\<close>: the recorded calls \<open>evs\<close> are the planned ones,
  in order, up to and including the first rejected one; none but the last is rejected;
  the result \<open>r\<close> is the rejection of the last call, or success after the whole plan.
\<close>

definition stops_at_rejection ::
  "call list \<Rightarrow> (call \<times> js_error option) list \<Rightarrow> js_error + unit \<Rightarrow> bool" where
  "stops_at_rejection planned evs r \<longleftrightarrow>
     map fst evs = take (length evs) planned \<and>
     length evs \<le> length planned \<and>
     (\<forall>ev \<in> set (butlast evs). snd ev = None) \<and>
     (case r of
        Inl e \<Rightarrow> evs \<noteq> [] \<and> snd (last evs) = Some e
      | Inr _ \<Rightarrow> length evs = length planned \<and> (\<forall>ev \<in> set evs. snd ev = None))"

text \<open>
  A list of client calls run one after the other until one is rejected: what a chain of
  \<^verbatim>\<open>await\<close>s does.
\<close>

fun perform :: "(call \<times> ('b \<Rightarrow> (js_error + unit) \<times> 'b)) list \<Rightarrow> (unit, 'b) async" where
  "perform [] s = (Inr (), s)"
| "perform ((c, f) # rest) s =
     (case invoke c f s of (Inl e, s') \<Rightarrow> (Inl e, s') | (Inr _, s') \<Rightarrow> perform rest s')"

text \<open>
  The health probe is refused \<open>n\<close> times from the backend state \<open>b\<close> on, and answered
  the next time.
\<close>

fun refused_then_answered :: "'b Client \<Rightarrow> nat \<Rightarrow> 'b \<Rightarrow> bool" where
  "refused_then_answered c 0 b = (\<not> isl (fst (ping c 250 b)))"
| "refused_then_answered c (Suc n) b =
     (isl (fst (ping c 250 b)) \<and> refused_then_answered c n (snd (ping c 250 b)))"

text \<open>The calls that reach the backend, as opposed to the converter, the timer and the console.\<close>

fun is_backend_call :: "call \<Rightarrow> bool" where
  "is_backend_call (Convert q n t) = False"
| "is_backend_call (Sleep ms) = False"
| "is_backend_call (ConsoleLog v) = False"
| "is_backend_call c = True"

definition backend_calls :: "(call \<times> js_error option) list \<Rightarrow> (call \<times> js_error option) list" where
  "backend_calls evs = filter (\<lambda>ev. is_backend_call (fst ev)) evs"

text \<open>The calls recorded by a run from \<open>s\<close> to \<open>s'\<close>.\<close>

definition issued :: "'b state \<Rightarrow> 'b state \<Rightarrow> (call \<times> js_error option) list" where
  "issued s s' = drop (length (trace s)) (trace s')"

text \<open>
  The calls of one round of the connection gate that ends in a refused ping, and of the
  round that ends the gate.
\<close>

definition retry_round :: "call list" where
  "retry_round = [Ping 250, ConsoleLog msg_trying_again, Sleep 2000]"

definition connect_round :: "call list" where
  "connect_round = [Ping 250, ConsoleLog msg_connected, Sleep 2000]"

text \<open>The record of a run of the gate in which the pings were refused with \<open>errs\<close>.\<close>

definition gate_run :: "js_error list \<Rightarrow> (call \<times> js_error option) list" where
  "gate_run errs =
     concat (map (\<lambda>e. [(Ping 250, Some e), (ConsoleLog msg_trying_again, None), (Sleep 2000, None)]) errs) @
     [(Ping 250, None), (ConsoleLog msg_connected, None), (Sleep 2000, None)]"

text \<open>The configuration protocol as a list of client calls, for \<open>perform\<close>.\<close>

definition configuration_steps ::
  "'b ElasticsearchSearchEngine \<Rightarrow> (call \<times> ('b \<Rightarrow> (js_error + unit) \<times> 'b)) list" where
  "configuration_steps e =
     [(CloseIndex (indexName e), indices_close (client e) (indexName e))] @
     (case indexSettings e of
        Some st \<Rightarrow> [(PutIndexSettings (indexName e) st, indices_putSettings (client e) (indexName e) st)]
      | None \<Rightarrow> []) @
     (case mapping e of
        Some m \<Rightarrow> [(PutIndexMapping (indexName e) (typeName e) m,
                    indices_putMapping (client e) (indexName e) (typeName e) m)]
      | None \<Rightarrow> []) @
     [(OpenIndex (indexName e), indices_open (client e) (indexName e)),
      (RefreshIndex (indexName e), indices_refresh (client e) (indexName e))]"

text \<open>A client call whose answer is not used.\<close>

definition discard :: "('b \<Rightarrow> (js_error + 'a) \<times> 'b) \<Rightarrow> 'b \<Rightarrow> (js_error + unit) \<times> 'b" where
  "discard f b = (case f b of (Inl e, b') \<Rightarrow> (Inl e, b') | (Inr _, b') \<Rightarrow> (Inr (), b'))"

text \<open>
  \<^verbatim>\<open>ensureIndex\<close> on the backend state \<open>b\<close>, and the whole of \<^verbatim>\<open>initialize\<close> after the
  gate, as lists of client calls.
\<close>

definition ensure_steps ::
  "'b ElasticsearchSearchEngine \<Rightarrow> 'b \<Rightarrow> (call \<times> ('b \<Rightarrow> (js_error + unit) \<times> 'b)) list" where
  "ensure_steps e b =
     (IndexExists (indexName e), discard (indices_exists (client e) (indexName e))) #
     (if fst (indices_exists (client e) (indexName e) b) = Inr False
      then [(CreateIndex (indexName e), indices_create (client e) (indexName e))]
      else [])"

definition initialize_steps ::
  "'b ElasticsearchSearchEngine \<Rightarrow> 'b \<Rightarrow> (call \<times> ('b \<Rightarrow> (js_error + unit) \<times> 'b)) list" where
  "initialize_steps e b =
     ensure_steps e b @
     (if indexSettings e \<noteq> None \<or> mapping e \<noteq> None then configuration_steps e else [])"

text \<open>
  The calls of \<^verbatim>\<open>initialize\<close> after the gate: the existence check, the creation when the
  index was reported absent, and the configuration protocol when settings or a mapping
  are held.
\<close>

definition initialize_sequence :: "'b ElasticsearchSearchEngine \<Rightarrow> bool \<Rightarrow> call list" where
  "initialize_sequence e absent =
     IndexExists (indexName e) #
     (if absent then [CreateIndex (indexName e)] else []) @
     (if indexSettings e \<noteq> None \<or> mapping e \<noteq> None then configuration_sequence e else [])"

text \<open>
  What keeping an index asks of the backend behind the client of an object: the existence
  check for the index of the object is a read, an index whose creation succeeded is
  reported present, and an index reported present is still reported present after a call
  of the configuration protocol.
\<close>

definition backend_keeps_index :: "'b ElasticsearchSearchEngine \<Rightarrow> bool" where
  "backend_keeps_index e \<longleftrightarrow>
     (\<forall>b. snd (indices_exists (client e) (indexName e) b) = b) \<and>
     (\<forall>b. fst (indices_create (client e) (indexName e) b) = Inr () \<longrightarrow>
          fst (indices_exists (client e) (indexName e)
                 (snd (indices_create (client e) (indexName e) b))) = Inr True) \<and>
     (\<forall>step \<in> set (configuration_steps e). \<forall>b.
          fst (indices_exists (client e) (indexName e) b) = Inr True \<longrightarrow>
          fst (indices_exists (client e) (indexName e) (snd (snd step b))) = Inr True)"

subsection \<open>A stub client\<close>

text \<open>
  A client over a small backend, for the concrete runs below. The backend refuses a
  number of pings before it answers, and rejects a bulk write or a query while it refuses
  pings. It knows which indices exist, rejects the calls on an index that does not exist
  and the creation of one that does, rejects settings that are not an object, keeps the
  settings and the mappings it was sent for an index until the index is deleted, and
  answers a bulk write and a query with the responses it holds.
\<close>

fun is_object :: "json \<Rightarrow> bool" where
  "is_object (JObj props) = True"
| "is_object v = False"

record Stub =
  refusals :: nat
  existing :: "string list"
  stored_settings :: "(string \<times> json) list"
  stored_mappings :: "(string \<times> string \<times> json) list"
  bulk_answer :: ElasticsearchBulkResponse
  search_answer :: SearchResponse

definition on_index :: "string \<Rightarrow> (Stub \<Rightarrow> Stub) \<Rightarrow> Stub \<Rightarrow> (js_error + unit) \<times> Stub" where
  "on_index n change b =
     (if n \<in> set (existing b) then (Inr (), change b)
      else (Inl (ClientError ''index_not_found_exception''), b))"

definition while_reachable :: "(js_error + 'a) \<Rightarrow> Stub \<Rightarrow> (js_error + 'a) \<times> Stub" where
  "while_reachable answer b =
     (if refusals b = 0 then (answer, b) else (Inl (ClientError ''No Living connections''), b))"

definition stub_client :: "Stub Client" where
  "stub_client =
     \<lparr> ping = (\<lambda>t b. if refusals b = 0 then (Inr (), b)
                      else (Inl (ClientError ''No Living connections''),
                            b\<lparr>refusals := refusals b - 1\<rparr>)),
       indices_exists = (\<lambda>n b. (Inr (n \<in> set (existing b)), b)),
       indices_create = (\<lambda>n b. if n \<in> set (existing b)
                               then (Inl (ClientError ''resource_already_exists_exception''), b)
                               else (Inr (), b\<lparr>existing := n # existing b\<rparr>)),
       indices_close = (\<lambda>n. on_index n (\<lambda>b. b)),
       indices_putSettings =
         (\<lambda>n st b. if is_object st
                   then on_index n (\<lambda>b. b\<lparr>stored_settings := (n, st) # stored_settings b\<rparr>) b
                   else (Inl (ClientError ''illegal_argument_exception''), b)),
       indices_putMapping =
         (\<lambda>n t m. on_index n (\<lambda>b. b\<lparr>stored_mappings := (n, t, m) # stored_mappings b\<rparr>)),
       indices_open = (\<lambda>n. on_index n (\<lambda>b. b)),
       indices_refresh = (\<lambda>n. on_index n (\<lambda>b. b)),
       indices_delete =
         (\<lambda>n. on_index n
            (\<lambda>b. b\<lparr>existing := removeAll n (existing b),
                     stored_settings := filter (\<lambda>p. fst p \<noteq> n) (stored_settings b),
                     stored_mappings := filter (\<lambda>p. fst p \<noteq> n) (stored_mappings b)\<rparr>)),
       bulk = (\<lambda>req b. while_reachable (Inr (bulk_answer b)) b),
       client_search = (\<lambda>q b. while_reachable (Inr (search_answer b)) b) \<rparr>"

subsection \<open>Concrete runs\<close>

text \<open>
  An object for the index \<^verbatim>\<open>films\<close> of type \<^verbatim>\<open>film\<close>, constructed with settings and
  with a mapping, over the stub client.
\<close>

definition demo_settings :: json where
  "demo_settings = JObj [(''number_of_replicas'', JNum 0)]"

definition demo_mapping :: json where
  "demo_mapping = JObj [(''properties'', JObj [(''title'', JObj [(''type'', JStr ''text'')])])]"

definition demo_engine :: "Stub ElasticsearchSearchEngine" where
  "demo_engine =
     new_ElasticsearchSearchEngine stub_client ''films'' ''film'' (Some demo_settings) (Some demo_mapping)"

text \<open>The same object constructed with settings that the stub client rejects.\<close>

definition demo_engine_bad_settings :: "Stub ElasticsearchSearchEngine" where
  "demo_engine_bad_settings =
     new_ElasticsearchSearchEngine stub_client ''films'' ''film'' (Some (JBool True)) (Some demo_mapping)"

text \<open>
  The answer to a bulk write of three documents of which the second was refused, and the
  answer to a query with two hits out of fifteen matches.
\<close>

definition demo_bulk_response :: ElasticsearchBulkResponse where
  "demo_bulk_response =
     \<lparr> took = 30, errors = True,
       items =
         [[(''index'', \<lparr> status = 201, error = None, other = [(''_id'', JStr ''a'')] \<rparr>)],
          [(''index'', \<lparr> status = 400,
                         error = Some (JObj [(''type'', JStr ''mapper_parsing_exception'')]),
                         other = [(''_id'', JStr ''b'')] \<rparr>)],
          [(''index'', \<lparr> status = 201, error = None, other = [(''_id'', JStr ''c'')] \<rparr>)]] \<rparr>"

definition demo_search_response :: SearchResponse where
  "demo_search_response =
     \<lparr> response_took = 7, hits_total = 15,
       hits_hits = [\<lparr> hit_source = JStr ''second'' \<rparr>, \<lparr> hit_source = JStr ''first'' \<rparr>] \<rparr>"

definition demo_items :: "SearchEngineItem list" where
  "demo_items =
     [\<lparr> id = ''a'', document = JStr ''first'' \<rparr>,
      \<lparr> id = ''b'', document = JNum 2 \<rparr>,
      \<lparr> id = ''c'', document = JStr ''third'' \<rparr>]"

text \<open>A converter that wraps the query, and rejects the query \<^verbatim>\<open>null\<close>.\<close>

definition demo_convert :: "json \<Rightarrow> string \<Rightarrow> string \<Rightarrow> js_error + json" where
  "demo_convert q n t =
     (if q = JNull then Inl (ClientError ''unsupported query'')
      else Inr (JObj [(''index'', JStr n), (''type'', JStr t), (''body'', q)]))"

text \<open>
  The backend \<open>demo_backend k ns\<close> refuses \<open>k\<close> pings and has the indices \<open>ns\<close>, with
  no settings and no mappings; a run
  starts in \<open>demo_state k ns\<close>, with nothing recorded.
\<close>

definition demo_backend :: "nat \<Rightarrow> string list \<Rightarrow> Stub" where
  "demo_backend k ns =
     \<lparr> refusals = k, existing = ns, stored_settings = [], stored_mappings = [],
       bulk_answer = demo_bulk_response, search_answer = demo_search_response \<rparr>"

definition demo_state :: "nat \<Rightarrow> string list \<Rightarrow> Stub state" where
  "demo_state k ns = \<lparr> this = demo_engine, backend = demo_backend k ns, trace = [] \<rparr>"

section \<open>Properties\<close>

subsection \<open>Calls through the client\<close>

lemmas demo_defs = demo_state_def demo_backend_def demo_engine_def new_ElasticsearchSearchEngine_def
  own_properties_after_set_def stub_client_def on_index_def while_reachable_def

lemma is_object_demo_settings [simp]: "is_object demo_settings"
  by (simp add: demo_settings_def)

lemmas run_defs = invoke_def emit_def sleep_def console_log_def rejection_def await_def resolve_def reject_def initialize_def
  initialize_connected_def ensureIndex_def applyConfiguration_def drop_index_def Let_def

lemma invoke_eq:
  "invoke c f s = (r, s') \<longleftrightarrow>
     r = fst (f (backend s)) \<and>
     s' = s\<lparr>backend := snd (f (backend s)), trace := trace s @ [(c, rejection r)]\<rparr>"
  by (auto simp: invoke_def split: prod.splits)

lemma snd_invoke:
  "snd (invoke c f s) =
     s\<lparr>backend := snd (f (backend s)), trace := trace s @ [(c, rejection (fst (f (backend s))))]\<rparr>"
  by (simp add: invoke_def split: prod.splits)

subsection \<open>Bulk indexing\<close>

text \<open>The loop of \<^verbatim>\<open>index\<close> appends to the body and leaves the address of the request alone.\<close>

lemma body_foldl_push:
  "body (foldl (\<lambda>req item. req\<lparr>body := push_item (body req) item\<rparr>) r its) =
     body r @ concat (map (\<lambda>item. [JObj [(''index'', JObj [(''_id'', JStr (id item))])], document item]) its)"
  by (induction its arbitrary: r) (simp_all add: push_item_def)

lemma foldl_push_frame:
  "bulk_index (foldl (\<lambda>req item. req\<lparr>body := push_item (body req) item\<rparr>) r its) = bulk_index r \<and>
   bulk_type (foldl (\<lambda>req item. req\<lparr>body := push_item (body req) item\<rparr>) r its) = bulk_type r \<and>
   BulkRequest.more (foldl (\<lambda>req item. req\<lparr>body := push_item (body req) item\<rparr>) r its) = BulkRequest.more r"
  by (induction its arbitrary: r) simp_all

lemma bulkRequest_of_eq:
  "bulkRequest_of e its =
     \<lparr> body = concat (map (\<lambda>item. [JObj [(''index'', JObj [(''_id'', JStr (id item))])], document item]) its),
       bulk_index = indexName e, bulk_type = typeName e \<rparr>"
  unfolding bulkRequest_of_def
  by (rule BulkRequest.equality) (simp_all add: body_foldl_push foldl_push_frame)

text \<open>
  C4. For every list of items, the empty one included, \<^verbatim>\<open>index\<close> calls the bulk
  method of the client exactly once: the backend after \<^verbatim>\<open>index\<close> is the backend that
  one call of \<^verbatim>\<open>client.bulk\<close> leaves, and the one call recorded is that bulk write, with
  the answer the client gave. The request is addressed to the index and the type of the
  object, and its body is, item by item in the order of the input, the directive
  \<^verbatim>\<open>{ index: { _id: id } }\<close> followed by the document.
\<close>

theorem index_single_bulk_call:
  "(let request =
          \<lparr> body = concat (map (\<lambda>item. [JObj [(''index'', JObj [(''_id'', JStr (id item))])],
                                          document item]) its),
            bulk_index = indexName (this s),
            bulk_type = typeName (this s) \<rparr>;
        answer = bulk (client (this s)) request (backend s)
    in snd (index its s) =
         s\<lparr>backend := snd answer,
           trace := trace s @ [(BulkWrite request, rejection (fst answer))]\<rparr>)"
  by (simp add: index_def await_def Let_def invoke_def reject_def resolve_def bulkRequest_of_eq
        split: prod.splits sum.splits)

text \<open>
  C2, as claimed, has \<^verbatim>\<open>index\<close> fail only when the bulk response has its \<^verbatim>\<open>errors\<close>
  flag set, and then with an error that carries the outcome of every item. When the bulk
  call itself is rejected there is no response: on a backend that cannot be reached
  \<^verbatim>\<open>index\<close> fails with the error of the client.
\<close>

theorem index_fails_without_response:
  "fst (bulk (client (this (demo_state (Suc 0) [''films''])))
          (bulkRequest_of (this (demo_state (Suc 0) [''films''])) demo_items)
          (backend (demo_state (Suc 0) [''films'']))) = Inl (ClientError ''No Living connections'') \<and>
   fst (index demo_items (demo_state (Suc 0) [''films''])) = Inl (ClientError ''No Living connections'')"
  by (simp add: demo_defs index_def await_def Let_def invoke_def)

text \<open>
  C2, amended. \<^verbatim>\<open>index\<close> fails if and only if the bulk call is rejected or its response
  has the \<^verbatim>\<open>errors\<close> flag set. When the call is rejected, \<^verbatim>\<open>index\<close> fails with the
  error of the call. When the response has the flag set, the error thrown is made from
  the whole response, so it carries the outcome of every item, of those that succeeded
  too. When the response has the flag not set, \<^verbatim>\<open>index\<close> returns normally.
\<close>

theorem index_fails_iff_rejected_or_errors:
  "(let answer = fst (bulk (client (this s)) (bulkRequest_of (this s) its) (backend s))
    in fst (index its s) =
         (case answer of
            Inl e \<Rightarrow> Inl e
          | Inr response \<Rightarrow> if errors response then Inl (Error response) else Inr ()) \<and>
       (isl (fst (index its s)) \<longleftrightarrow>
          isl answer \<or> (\<exists>response. answer = Inr response \<and> errors response)))"
  by (cases "bulk (client (this s)) (bulkRequest_of (this s) its) (backend s)";
      cases "fst (bulk (client (this s)) (bulkRequest_of (this s) its) (backend s))")
     (simp_all add: index_def await_def Let_def invoke_def reject_def resolve_def)

text \<open>A bulk write of three documents of which the second is refused.\<close>

theorem index_fails_iff_rejected_or_errors_witness:
  "fst (index demo_items (demo_state 0 [''films''])) = Inl (Error demo_bulk_response) \<and>
   isl (fst (index demo_items (demo_state 0 [''films'']))) \<and>
   map status (map (snd \<circ> hd) (items demo_bulk_response)) = [201, 400, 201]"
  using index_fails_iff_rejected_or_errors [of "demo_state 0 [''films'']" demo_items]
  by (simp add: Let_def demo_defs demo_bulk_response_def)

subsection \<open>Searching\<close>

text \<open>
  C5, as claimed, has every query executed on the backend exactly once. A query that the
  converter rejects is never executed: the conversion is the only call.
\<close>

theorem search_rejected_conversion_issues_no_query:
  "search demo_convert JNull (demo_state 0 [''films'']) =
     (Inl (ClientError ''unsupported query''),
      (demo_state 0 [''films''])\<lparr>trace := [(Convert JNull ''films'' ''film'',
                                               Some (ClientError ''unsupported query''))]\<rparr>)"
  by (simp add: demo_defs search_def await_def invoke_def rejection_def demo_convert_def)

text \<open>
  C5, amended. For every query, \<^verbatim>\<open>search\<close> converts the query exactly once. If the
  conversion fails, its error is the result and the backend is not called. Otherwise
  \<^verbatim>\<open>search\<close> calls the search method of the client exactly once with the converted
  query and never again: the backend after \<^verbatim>\<open>search\<close> is the backend that one call
  leaves. When the backend rejects the query, its error is the result; when it answers,
  the result has the total and the time the backend reported and, as items, the sources
  of the hits in the order of the answer.
\<close>

theorem search_converts_and_queries_once:
  "search convert query s =
     (case convert query (indexName (this s)) (typeName (this s)) of
        Inl e \<Rightarrow>
          (Inl e,
           s\<lparr>trace := trace s @ [(Convert query (indexName (this s)) (typeName (this s)), Some e)]\<rparr>)
      | Inr q \<Rightarrow>
          (case client_search (client (this s)) q (backend s) of
             (answer, b) \<Rightarrow>
               (case answer of
                  Inl e \<Rightarrow> Inl e
                | Inr result \<Rightarrow>
                    Inr \<lparr> total = hits_total result,
                          milliseconds = response_took result,
                          result_items = map hit_source (hits_hits result) \<rparr>,
                s\<lparr>backend := b,
                  trace := trace s @
                    [(Convert query (indexName (this s)) (typeName (this s)), None),
                     (ConsoleLog q, None),
                     (Query q, rejection answer)]\<rparr>)))"
  by (cases "convert query (indexName (this s)) (typeName (this s))";
      cases "client_search (client (this s))
               (projr (convert query (indexName (this s)) (typeName (this s)))) (backend s)";
      cases "fst (client_search (client (this s))
               (projr (convert query (indexName (this s)) (typeName (this s)))) (backend s))")
     (simp_all add: search_def await_def invoke_def emit_def console_log_def resolve_def rejection_def)

text \<open>A query with two hits out of fifteen matches.\<close>

theorem search_converts_and_queries_once_witness:
  "search demo_convert (JStr ''heute'') (demo_state 0 [''films'']) =
     (Inr \<lparr> total = 15, milliseconds = 7, result_items = [JStr ''second'', JStr ''first''] \<rparr>,
      (demo_state 0 [''films''])\<lparr>trace :=
        [(Convert (JStr ''heute'') ''films'' ''film'', None),
         (ConsoleLog (JObj [(''index'', JStr ''films''), (''type'', JStr ''film''), (''body'', JStr ''heute'')]), None),
         (Query (JObj [(''index'', JStr ''films''), (''type'', JStr ''film''), (''body'', JStr ''heute'')]), None)]\<rparr>)"
  using search_converts_and_queries_once [of demo_convert "JStr ''heute''" "demo_state 0 [''films'']"]
  by (simp add: demo_defs rejection_def demo_convert_def demo_search_response_def)

subsection \<open>The connection gate\<close>

lemma waitForConnection_refused:
  assumes "ping (client (this s)) 250 (backend s) = (Inl e, b)"
  shows "waitForConnection s =
           waitForConnection (s\<lparr>backend := b,
              trace := trace s @ [(Ping 250, Some e), (ConsoleLog msg_trying_again, None), (Sleep 2000, None)]\<rparr>)"
  using assms
  by (subst waitForConnection.simps) (simp add: invoke_def emit_def sleep_def console_log_def rejection_def)

lemma waitForConnection_answered:
  assumes "ping (client (this s)) 250 (backend s) = (Inr u, b)"
  shows "waitForConnection s =
           Some (s\<lparr>backend := b,
              trace := trace s @ [(Ping 250, None), (ConsoleLog msg_connected, None), (Sleep 2000, None)]\<rparr>)"
  using assms
  by (subst waitForConnection.simps) (simp add: invoke_def emit_def sleep_def console_log_def rejection_def)

text \<open>A gate that returns has left the object alone and recorded a run of rounds.\<close>

lemma waitForConnection_returns:
  assumes "waitForConnection s = Some s'"
  shows "this s' = this s \<and> (\<exists>errs. trace s' = trace s @ gate_run errs)"
proof (rule waitForConnection.raw_induct
    [where P = "\<lambda>s s'. this s' = this s \<and> (\<exists>errs. trace s' = trace s @ gate_run errs)", OF _ assms])
  fix w :: "'a state \<Rightarrow> 'a state option" and s s'
  assume IH: "\<And>x y. w x = Some y \<Longrightarrow> this y = this x \<and> (\<exists>errs. trace y = trace x @ gate_run errs)"
  assume body: "(case invoke (Ping 250) (ping (client (this s)) 250) s of
        (r, s1) \<Rightarrow>
          let success = (case r of Inr _ \<Rightarrow> True | Inl _ \<Rightarrow> False);
              s2 = (if success
                    then console_log msg_connected s1
                    else console_log msg_trying_again s1);
              s3 = sleep 2000 s2
          in if success then Some s3 else w s3) = Some s'"
  obtain r b where p: "ping (client (this s)) 250 (backend s) = (r, b)"
    by (cases "ping (client (this s)) 250 (backend s)")
  show "this s' = this s \<and> (\<exists>errs. trace s' = trace s @ gate_run errs)"
  proof (cases r)
    case (Inl e)
    let ?s3 = "s\<lparr>backend := b,
              trace := trace s @ [(Ping 250, Some e), (ConsoleLog msg_trying_again, None), (Sleep 2000, None)]\<rparr>"
    from body p Inl have "w ?s3 = Some s'"
      by (simp add: invoke_def emit_def sleep_def console_log_def rejection_def)
    from IH[OF this] obtain errs where
      "this s' = this s" "trace s' = trace ?s3 @ gate_run errs" by auto
    then have "trace s' = trace s @ gate_run (e # errs)"
      by (simp add: gate_run_def)
    with \<open>this s' = this s\<close> show ?thesis by blast
  next
    case (Inr u)
    with body p have "s' = s\<lparr>backend := b,
              trace := trace s @ [(Ping 250, None), (ConsoleLog msg_connected, None), (Sleep 2000, None)]\<rparr>"
      by (simp add: invoke_def emit_def sleep_def console_log_def rejection_def)
    then have "this s' = this s" "trace s' = trace s @ gate_run []"
      by (simp_all add: gate_run_def)
    then show ?thesis by blast
  qed
qed

text \<open>
  When the probe is refused \<open>n\<close> times and then answered, the gate returns after
  \<open>n + 1\<close> rounds, each of them a ping, a console message and a sleep.
\<close>

lemma waitForConnection_converges:
  "refused_then_answered (client (this s)) n (backend s) \<Longrightarrow>
     \<exists>s'. waitForConnection s = Some s' \<and>
          map fst (issued s s') = concat (replicate n retry_round) @ connect_round"
proof (induction n arbitrary: s)
  case 0
  then obtain u b where "ping (client (this s)) 250 (backend s) = (Inr u, b)"
    by (cases "ping (client (this s)) 250 (backend s)"; cases "fst (ping (client (this s)) 250 (backend s))") auto
  from waitForConnection_answered[OF this] show ?case
    by (simp add: issued_def connect_round_def)
next
  case (Suc n)
  then obtain e b where p: "ping (client (this s)) 250 (backend s) = (Inl e, b)"
    by (cases "ping (client (this s)) 250 (backend s)"; cases "fst (ping (client (this s)) 250 (backend s))") auto
  let ?s3 = "s\<lparr>backend := b,
              trace := trace s @ [(Ping 250, Some e), (ConsoleLog msg_trying_again, None), (Sleep 2000, None)]\<rparr>"
  from Suc.prems p have "refused_then_answered (client (this ?s3)) n (backend ?s3)"
    by simp
  from Suc.IH[OF this] obtain s' where
    w: "waitForConnection ?s3 = Some s'"
    and t: "map fst (issued ?s3 s') = concat (replicate n retry_round) @ connect_round"
    by blast
  from waitForConnection_returns[OF w] obtain errs where
    "trace s' = trace ?s3 @ gate_run errs" by blast
  with t have "map fst (issued s s') = concat (replicate (Suc n) retry_round) @ connect_round"
    by (simp add: issued_def retry_round_def)
  with w waitForConnection_refused[OF p] show ?case by simp
qed

text \<open>
  C3. The gate sleeps after every ping, the answered one included. On a backend that
  refuses the first ping and answers the second (\<open>N = 1\<close>) it pings twice and sleeps
  twice, the second time after the answered ping, where one backoff interval and an
  immediate return are claimed.
\<close>

theorem waitForConnection_sleeps_after_answer:
  "refused_then_answered stub_client (Suc 0) (demo_backend (Suc 0) []) \<and>
   map_option (map fst \<circ> trace) (waitForConnection (demo_state (Suc 0) [])) =
     Some [Ping 250, ConsoleLog msg_trying_again, Sleep 2000,
           Ping 250, ConsoleLog msg_connected, Sleep 2000]"
  by (simp add: waitForConnection.simps demo_defs run_defs)

subsection \<open>Chains of client calls\<close>

lemma map_fst_configuration_steps: "map fst (configuration_steps e) = configuration_sequence e"
  by (simp add: configuration_steps_def configuration_sequence_def split: option.splits)

lemma this_invoke [simp]: "this (snd (invoke c f s)) = this s"
  by (simp add: snd_invoke)

lemma invoke_this: "invoke c f s = (r, s') \<Longrightarrow> this s' = this s"
  by (auto simp: invoke_eq)

lemma perform_this: "perform steps s = (r, s') \<Longrightarrow> this s' = this s"
proof (induction steps arbitrary: s)
  case Nil
  then show ?case by simp
next
  case (Cons a steps)
  obtain c f where a: "a = (c, f)" by (cases a)
  obtain r1 s1 where i: "invoke c f s = (r1, s1)" by (cases "invoke c f s")
  then have t: "this s1 = this s" by (rule invoke_this)
  show ?case
  proof (cases r1)
    case (Inl e)
    with Cons.prems a i t show ?thesis by simp
  next
    case (Inr u)
    with Cons.prems a i have "perform steps s1 = (r, s')" by simp
    from Cons.IH[OF this] t show ?thesis by simp
  qed
qed

lemma perform_append:
  "perform (xs @ ys) s =
     (case perform xs s of (Inl e, s') \<Rightarrow> (Inl e, s') | (Inr _, s') \<Rightarrow> perform ys s')"
  by (induction xs arbitrary: s) (auto split: prod.splits sum.splits)

text \<open>
  A chain stops at the first call that the client rejects: when the calls before it were
  accepted and the client rejects the next one, the chain returns that rejection with
  the backend as the rejected call left it, and none of the calls after it is made.
\<close>

lemma perform_stops:
  assumes "perform pre s = (Inr u, sm)" and "f (backend sm) = (Inl e, b)"
  shows "perform (pre @ (c, f) # post) s =
           (Inl e, sm\<lparr>backend := b, trace := trace sm @ [(c, Some e)]\<rparr>)"
  using assms by (simp add: perform_append invoke_def rejection_def)

lemma applyConfiguration_perform:
  "applyConfiguration s = perform (configuration_steps (this s)) s"
proof -
  have inv: "\<And>c f s r s'. invoke c f s = (r, s') \<Longrightarrow> this s' = this s"
    by (rule invoke_this)
  show ?thesis
    by (cases "indexSettings (this s)"; cases "mapping (this s)")
       (auto simp: applyConfiguration_def configuration_steps_def Let_def await_def resolve_def
          split: prod.splits sum.splits dest: inv)
qed

lemma perform_trace:
  "perform steps s = (r, s') \<Longrightarrow>
     \<exists>evs. trace s' = trace s @ evs \<and> stops_at_rejection (map fst steps) evs r"
proof (induction steps arbitrary: s)
  case Nil
  then show ?case by (auto simp: stops_at_rejection_def)
next
  case (Cons a steps)
  obtain c f where a: "a = (c, f)" by (cases a)
  obtain r1 s1 where i: "invoke c f s = (r1, s1)" by (cases "invoke c f s")
  have t1: "trace s1 = trace s @ [(c, rejection r1)]"
    using i by (auto simp: invoke_eq)
  show ?case
  proof (cases r1)
    case (Inl e)
    with Cons.prems a i have "r = Inl e" "s' = s1" by auto
    with t1 Inl show ?thesis
      by (auto simp: stops_at_rejection_def rejection_def a)
  next
    case (Inr u)
    with Cons.prems a i have "perform steps s1 = (r, s')" by auto
    from Cons.IH[OF this] obtain evs where
      e: "trace s' = trace s1 @ evs" "stops_at_rejection (map fst steps) evs r" by blast
    have "stops_at_rejection (map fst (a # steps)) ((c, None) # evs) r"
      using e(2) by (cases evs) (auto simp: stops_at_rejection_def a split: sum.splits)
    with e(1) t1 Inr show ?thesis
      by (auto simp: rejection_def)
  qed
qed

lemma ensureIndex_perform: "ensureIndex s = perform (ensure_steps (this s) (backend s)) s"
  by (cases "indices_exists (client (this s)) (indexName (this s)) (backend s)")
     (auto simp: ensureIndex_def ensure_steps_def await_def resolve_def invoke_def discard_def rejection_def
        split: prod.splits sum.splits)

lemma this_ensureIndex: "ensureIndex s = (r, s') \<Longrightarrow> this s' = this s"
  unfolding ensureIndex_perform by (rule perform_this)


lemma initialize_connected_perform:
  "initialize_connected s = perform (initialize_steps (this s) (backend s)) s"
proof -
  obtain r1 s1 where e: "ensureIndex s = (r1, s1)" by (cases "ensureIndex s")
  then have t: "this s1 = this s" by (rule this_ensureIndex)
  from e have p: "perform (ensure_steps (this s) (backend s)) s = (r1, s1)"
    by (simp add: ensureIndex_perform)
  show ?thesis
    using e p t
    by (cases r1)
       (simp_all add: initialize_connected_def initialize_steps_def await_def perform_append
          resolve_def applyConfiguration_perform)
qed

lemma map_fst_initialize_steps:
  "map fst (initialize_steps e b) =
     initialize_sequence e (fst (indices_exists (client e) (indexName e) b) = Inr False)"
  by (simp add: initialize_steps_def ensure_steps_def initialize_sequence_def map_fst_configuration_steps)

lemma initialize_connected_trace:
  assumes "initialize_connected s = (r, s')"
  shows "this s' = this s \<and>
         (\<exists>evs. trace s' = trace s @ evs \<and>
            stops_at_rejection
              (initialize_sequence (this s)
                 (fst (indices_exists (client (this s)) (indexName (this s)) (backend s)) = Inr False))
              evs r)"
proof -
  from assms have p: "perform (initialize_steps (this s) (backend s)) s = (r, s')"
    by (simp add: initialize_connected_perform)
  from perform_this[OF p] perform_trace[OF p] show ?thesis
    by (simp add: map_fst_initialize_steps)
qed

lemma initialize_returns:
  assumes "initialize s = Some (r, s')"
  shows "this s' = this s \<and>
         (\<exists>errs absent evs. trace s' = trace s @ gate_run errs @ evs \<and>
            stops_at_rejection (initialize_sequence (this s) absent) evs r)"
proof -
  from assms obtain s1 where w: "waitForConnection s = Some s1" and i: "initialize_connected s1 = (r, s')"
    by (auto simp: initialize_def split: option.splits)
  from waitForConnection_returns[OF w] obtain errs where
    g: "this s1 = this s" "trace s1 = trace s @ gate_run errs" by blast
  from initialize_connected_trace[OF i] g show ?thesis
    by auto
qed

subsection \<open>Initialization\<close>

text \<open>
  \<^verbatim>\<open>initialize\<close> returns whenever the probe is answered after finitely many refusals.
\<close>

lemma initialize_converges:
  assumes "refused_then_answered (client (this s)) n (backend s)"
  shows "\<exists>r s'. initialize s = Some (r, s')"
proof -
  from waitForConnection_converges[OF assms] obtain s1 where "waitForConnection s = Some s1"
    by blast
  then have "initialize s = Some (initialize_connected s1)"
    by (simp add: initialize_def)
  then show ?thesis
    by (cases "initialize_connected s1") auto
qed

text \<open>
  C1. When the gate has returned and \<^verbatim>\<open>ensureIndex\<close> has succeeded, \<^verbatim>\<open>initialize\<close>
  returns. If settings or a mapping were given to the constructor, what it does after
  \<^verbatim>\<open>ensureIndex\<close> is to call the client for the steps of the configuration protocol,
  in order (close, settings if given, mapping if given, open, refresh), each on the
  backend the step before left, until the client rejects one. The calls recorded are
  those of the protocol up to the first rejected one. Whenever the steps before a step
  were accepted and the client rejects that step, \<^verbatim>\<open>initialize\<close> fails with the error
  of that step, the rejected call is the last one made, and the backend is as that call
  left it. Without a rejection the whole protocol is run and \<^verbatim>\<open>initialize\<close> succeeds.
  If neither settings nor a mapping was given, the client is not called after
  \<^verbatim>\<open>ensureIndex\<close>.
\<close>

theorem initialize_configuration_order:
  assumes "this s = new_ElasticsearchSearchEngine c iName tName iSettings iMapping"
    and "waitForConnection s = Some s1"
    and "ensureIndex s1 = (Inr (), s2)"
  shows "(let steps =
            [(CloseIndex iName, indices_close c iName)] @
            (case iSettings of
               Some st \<Rightarrow> [(PutIndexSettings iName st, indices_putSettings c iName st)]
             | None \<Rightarrow> []) @
            (case iMapping of
               Some m \<Rightarrow>
                 [(PutIndexMapping iName tName (JObj (own_properties_after_set tName m)),
                   indices_putMapping c iName tName (JObj (own_properties_after_set tName m)))]
             | None \<Rightarrow> []) @
            [(OpenIndex iName, indices_open c iName),
             (RefreshIndex iName, indices_refresh c iName)]
          in initialize s =
               Some (if iSettings \<noteq> None \<or> iMapping \<noteq> None then perform steps s2
                     else (Inr (), s2)) \<and>
             (\<exists>r s3. initialize s = Some (r, s3) \<and> trace s3 = trace s2 @ issued s2 s3 \<and>
                (if iSettings \<noteq> None \<or> iMapping \<noteq> None
                 then stops_at_rejection (map fst steps) (issued s2 s3) r
                 else issued s2 s3 = [] \<and> r = Inr ())) \<and>
             (\<forall>pre call f post sm e b.
                (iSettings \<noteq> None \<or> iMapping \<noteq> None) \<and>
                steps = pre @ (call, f) # post \<and>
                perform pre s2 = (Inr (), sm) \<and>
                f (backend sm) = (Inl e, b) \<longrightarrow>
                initialize s =
                  Some (Inl e, sm\<lparr>backend := b, trace := trace sm @ [(call, Some e)]\<rparr>)))"
proof -
  from waitForConnection_returns[OF assms(2)] have t1: "this s1 = this s" by simp
  from this_ensureIndex[OF assms(3)] t1 have t2: "this s2 = this s" by simp
  have i: "initialize s = Some (initialize_connected s1)"
    using assms(2) by (simp add: initialize_def)
  have held: "(indexSettings (this s) \<noteq> None \<or> mapping (this s) \<noteq> None) =
      (iSettings \<noteq> None \<or> iMapping \<noteq> None)"
    by (simp add: assms(1) new_ElasticsearchSearchEngine_def split: option.splits)
  have steps: "configuration_steps (this s) =
      [(CloseIndex iName, indices_close c iName)] @
      (case iSettings of
         Some st \<Rightarrow> [(PutIndexSettings iName st, indices_putSettings c iName st)]
       | None \<Rightarrow> []) @
      (case iMapping of
         Some m \<Rightarrow>
           [(PutIndexMapping iName tName (JObj (own_properties_after_set tName m)),
             indices_putMapping c iName tName (JObj (own_properties_after_set tName m)))]
       | None \<Rightarrow> []) @
      [(OpenIndex iName, indices_open c iName),
       (RefreshIndex iName, indices_refresh c iName)]"
    by (simp add: assms(1) new_ElasticsearchSearchEngine_def configuration_steps_def
          split: option.splits)
  show ?thesis
  proof (cases "iSettings \<noteq> None \<or> iMapping \<noteq> None")
    case True
    obtain r s3 where p: "perform (configuration_steps (this s)) s2 = (r, s3)"
      by (cases "perform (configuration_steps (this s)) s2")
    from perform_trace[OF p] obtain evs where
      e: "trace s3 = trace s2 @ evs"
        "stops_at_rejection (map fst (configuration_steps (this s))) evs r"
      by blast
    have "initialize_connected s1 = (r, s3)"
      using assms(3) True p t2 held
      by (simp add: initialize_connected_def await_def applyConfiguration_perform)
    have stops: "\<And>pre call f post sm e b.
        configuration_steps (this s) = pre @ (call, f) # post \<Longrightarrow>
        perform pre s2 = (Inr (), sm) \<Longrightarrow> f (backend sm) = (Inl e, b) \<Longrightarrow>
        perform (configuration_steps (this s)) s2 =
          (Inl e, sm\<lparr>backend := b, trace := trace sm @ [(call, Some e)]\<rparr>)"
      using perform_stops by metis
    have run: "initialize s = Some (perform (configuration_steps (this s)) s2)"
      using \<open>initialize_connected s1 = (r, s3)\<close> i p by simp
    have shape: "\<exists>r s3. initialize s = Some (r, s3) \<and> trace s3 = trace s2 @ issued s2 s3 \<and>
        stops_at_rejection (map fst (configuration_steps (this s))) (issued s2 s3) r"
      using run p e by (auto simp: issued_def)
    from run shape stops True show ?thesis
      unfolding steps [symmetric] Let_def by auto
  next
    case False
    have "initialize_connected s1 = (Inr (), s2)"
      using assms(3) False t2 held
      by (simp add: initialize_connected_def await_def resolve_def)
    with i False show ?thesis
      unfolding Let_def by (simp add: issued_def)
  qed
qed

text \<open>
  Two runs on the stub client: one in which every step is accepted, and one in which the
  settings are rejected, after which neither the mapping is put nor the index opened.
\<close>

theorem initialize_configuration_order_witness:
  "initialize (demo_state 0 []) =
     Some (Inr (),
           \<lparr> this = demo_engine,
             backend = (demo_backend 0 [''films''])
               \<lparr>stored_settings := [(''films'', demo_settings)],
                stored_mappings := [(''films'', ''film'', JObj [(''film'', demo_mapping)])]\<rparr>,
             trace = gate_run [] @
               [(IndexExists ''films'', None), (CreateIndex ''films'', None),
                (CloseIndex ''films'', None), (PutIndexSettings ''films'' demo_settings, None),
                (PutIndexMapping ''films'' ''film'' (JObj [(''film'', demo_mapping)]), None),
                (OpenIndex ''films'', None), (RefreshIndex ''films'', None)] \<rparr>) \<and>
   initialize ((demo_state 0 [])\<lparr>this := demo_engine_bad_settings\<rparr>) =
     Some (Inl (ClientError ''illegal_argument_exception''),
           \<lparr> this = demo_engine_bad_settings,
             backend = demo_backend 0 [''films''],
             trace = gate_run [] @
               [(IndexExists ''films'', None), (CreateIndex ''films'', None),
                (CloseIndex ''films'', None),
                (PutIndexSettings ''films'' (JBool True),
                 Some (ClientError ''illegal_argument_exception''))] \<rparr>)"
proof -
  have h0: "this (demo_state 0 []) =
     new_ElasticsearchSearchEngine stub_client ''films'' ''film'' (Some demo_settings) (Some demo_mapping)"
    by (simp add: demo_state_def demo_engine_def)
  have h1: "waitForConnection (demo_state 0 []) = Some ((demo_state 0 [])\<lparr>trace := gate_run []\<rparr>)"
    by (simp add: waitForConnection.simps demo_defs run_defs gate_run_def)
  have h2: "ensureIndex ((demo_state 0 [])\<lparr>trace := gate_run []\<rparr>) =
     (Inr (), \<lparr> this = demo_engine, backend = demo_backend 0 [''films''],
                trace = gate_run [] @ [(IndexExists ''films'', None), (CreateIndex ''films'', None)] \<rparr>)"
    by (simp add: demo_defs run_defs)
  have g0: "this ((demo_state 0 [])\<lparr>this := demo_engine_bad_settings\<rparr>) =
     new_ElasticsearchSearchEngine stub_client ''films'' ''film'' (Some (JBool True)) (Some demo_mapping)"
    by (simp add: demo_engine_bad_settings_def)
  have g1: "waitForConnection ((demo_state 0 [])\<lparr>this := demo_engine_bad_settings\<rparr>) =
      Some ((demo_state 0 [])\<lparr>this := demo_engine_bad_settings, trace := gate_run []\<rparr>)"
    by (simp add: waitForConnection.simps demo_defs demo_engine_bad_settings_def run_defs gate_run_def)
  have g2: "ensureIndex ((demo_state 0 [])\<lparr>this := demo_engine_bad_settings, trace := gate_run []\<rparr>) =
     (Inr (), \<lparr> this = demo_engine_bad_settings, backend = demo_backend 0 [''films''],
                trace = gate_run [] @ [(IndexExists ''films'', None), (CreateIndex ''films'', None)] \<rparr>)"
    by (simp add: demo_defs demo_engine_bad_settings_def run_defs)
  have accepted: "initialize (demo_state 0 []) =
     Some (Inr (),
           \<lparr> this = demo_engine,
             backend = (demo_backend 0 [''films''])
               \<lparr>stored_settings := [(''films'', demo_settings)],
                stored_mappings := [(''films'', ''film'', JObj [(''film'', demo_mapping)])]\<rparr>,
             trace = gate_run [] @
               [(IndexExists ''films'', None), (CreateIndex ''films'', None),
                (CloseIndex ''films'', None), (PutIndexSettings ''films'' demo_settings, None),
                (PutIndexMapping ''films'' ''film'' (JObj [(''film'', demo_mapping)]), None),
                (OpenIndex ''films'', None), (RefreshIndex ''films'', None)] \<rparr>)"
    using initialize_configuration_order [OF h0 h1 h2, unfolded Let_def, THEN conjunct1]
    by (simp add: invoke_def rejection_def stub_client_def on_index_def demo_backend_def
          own_properties_after_set_def demo_settings_def)
  have rejected: "initialize ((demo_state 0 [])\<lparr>this := demo_engine_bad_settings\<rparr>) =
     Some (Inl (ClientError ''illegal_argument_exception''),
           \<lparr> this = demo_engine_bad_settings,
             backend = demo_backend 0 [''films''],
             trace = gate_run [] @
               [(IndexExists ''films'', None), (CreateIndex ''films'', None),
                (CloseIndex ''films'', None),
                (PutIndexSettings ''films'' (JBool True),
                 Some (ClientError ''illegal_argument_exception''))] \<rparr>)"
    using initialize_configuration_order [OF g0 g1 g2, unfolded Let_def, THEN conjunct1]
    by (simp add: invoke_def rejection_def stub_client_def on_index_def demo_backend_def
          own_properties_after_set_def)
  from accepted rejected show ?thesis by simp
qed

subsection \<open>Ensuring the index\<close>



subsection \<open>Dropping the index\<close>

lemma drop_index_rejected:
  assumes "indices_delete (client (this s)) (indexName (this s)) (backend s) = (Inl e, b)"
  shows "drop_index s =
           Some (Inl e, s\<lparr>backend := b, trace := trace s @ [(DeleteIndex (indexName (this s)), Some e)]\<rparr>)"
  using assms by (simp add: drop_index_def invoke_def rejection_def)

lemma drop_index_deleted:
  assumes "indices_delete (client (this s)) (indexName (this s)) (backend s) = (Inr u, b)"
  shows "drop_index s =
           initialize (s\<lparr>backend := b, trace := trace s @ [(DeleteIndex (indexName (this s)), None)]\<rparr>)"
  using assms by (simp add: drop_index_def invoke_def rejection_def)

lemma stops_at_rejection_subset:
  "stops_at_rejection planned evs r \<Longrightarrow> fst ` set evs \<subseteq> set planned"
proof -
  assume "stops_at_rejection planned evs r"
  then have "map fst evs = take (length evs) planned"
    by (simp add: stops_at_rejection_def)
  then have "set (map fst evs) \<subseteq> set planned"
    by (metis set_take_subset)
  then show ?thesis by simp
qed

lemma backend_calls_gate_run:
  "backend_calls (gate_run errs) = map (\<lambda>e. (Ping 250, Some e)) errs @ [(Ping 250, None)]"
  by (induction errs) (simp_all add: gate_run_def backend_calls_def)

text \<open>
  A \<^verbatim>\<open>drop\<close> that returns has recorded the deletion first; after a rejected deletion
  nothing else, after a fulfilled one a run of the gate and then the calls of
  \<^verbatim>\<open>initialize\<close> up to the first rejected one.
\<close>

lemma drop_index_returns:
  assumes "drop_index s = Some (r, s')"
  shows "this s' = this s \<and>
         (\<exists>del rest. trace s' = trace s @ (DeleteIndex (indexName (this s)), del) # rest \<and>
            (case del of
               Some e \<Rightarrow> r = Inl e \<and> rest = []
             | None \<Rightarrow>
                 \<exists>errs absent evs. rest = gate_run errs @ evs \<and>
                   stops_at_rejection (initialize_sequence (this s) absent) evs r))"
proof -
  obtain d b where del: "indices_delete (client (this s)) (indexName (this s)) (backend s) = (d, b)"
    by (cases "indices_delete (client (this s)) (indexName (this s)) (backend s)")
  show ?thesis
  proof (cases d)
    case (Inl e)
    with del assms drop_index_rejected[of s e b] show ?thesis
      by auto
  next
    case (Inr u)
    let ?s1 = "s\<lparr>backend := b, trace := trace s @ [(DeleteIndex (indexName (this s)), None)]\<rparr>"
    from Inr del assms drop_index_deleted[of s u b] have "initialize ?s1 = Some (r, s')"
      by simp
    from initialize_returns[OF this] obtain errs absent evs where
      "this s' = this s" "trace s' = trace ?s1 @ gate_run errs @ evs"
      "stops_at_rejection (initialize_sequence (this s) absent) evs r"
      by auto
    then show ?thesis
      by (intro conjI exI[of _ None] exI[of _ "gate_run errs @ evs"]) auto
  qed
qed

text \<open>
  After a fulfilled deletion \<^verbatim>\<open>drop\<close> returns whenever the probe is answered after
  finitely many refusals.
\<close>

lemma drop_index_converges:
  assumes "indices_delete (client (this s)) (indexName (this s)) (backend s) = (Inr u, b)"
    and "refused_then_answered (client (this s)) n b"
  shows "\<exists>r s'. drop_index s = Some (r, s')"
proof -
  let ?s1 = "s\<lparr>backend := b, trace := trace s @ [(DeleteIndex (indexName (this s)), None)]\<rparr>"
  from assms(2) have "refused_then_answered (client (this ?s1)) n (backend ?s1)" by simp
  from initialize_converges[OF this] drop_index_deleted[OF assms(1)] show ?thesis by simp
qed



text \<open>
  C7, as claimed, has the gate skipped when the client is already connected. It is not:
  a \<^verbatim>\<open>drop\<close> that follows a successful \<^verbatim>\<open>initialize\<close> on a backend that answers
  every ping goes through the gate again.
\<close>

theorem drop_pings_connected_backend:
  "map_option (map fst \<circ> trace) (run_operations demo_convert [Initialize, Drop] (demo_state 0 [])) =
     Some [Ping 250, ConsoleLog msg_connected, Sleep 2000,
           IndexExists ''films'', CreateIndex ''films'',
           CloseIndex ''films'', PutIndexSettings ''films'' demo_settings,
           PutIndexMapping ''films'' ''film'' (JObj [(''film'', demo_mapping)]),
           OpenIndex ''films'', RefreshIndex ''films'',
           DeleteIndex ''films'',
           Ping 250, ConsoleLog msg_connected, Sleep 2000,
           IndexExists ''films'', CreateIndex ''films'',
           CloseIndex ''films'', PutIndexSettings ''films'' demo_settings,
           PutIndexMapping ''films'' ''film'' (JObj [(''film'', demo_mapping)]),
           OpenIndex ''films'', RefreshIndex ''films'']"
  by (simp add: waitForConnection.simps demo_defs run_defs)

text \<open>
  A chain of client calls keeps what each of its calls keeps, whatever its result.
\<close>

lemma perform_keeps:
  assumes "\<forall>step \<in> set steps. \<forall>b. P b \<longrightarrow> P (snd (snd step b))"
    and "P (backend s)"
    and "perform steps s = (r, s')"
  shows "P (backend s')"
  using assms
proof (induction steps arbitrary: s)
  case Nil
  then show ?case by simp
next
  case (Cons a steps)
  obtain c f where a: "a = (c, f)" by (cases a)
  obtain r1 s1 where i: "invoke c f s = (r1, s1)" by (cases "invoke c f s")
  then have b1: "backend s1 = snd (f (backend s))"
    by (auto simp: invoke_eq)
  from Cons.prems(1,2) a have p1: "P (backend s1)"
    unfolding b1 by auto
  show ?case
  proof (cases r1)
    case (Inl e)
    with Cons.prems(3) a i p1 show ?thesis by simp
  next
    case (Inr u)
    with Cons.prems(3) a i have "perform steps s1 = (r, s')" by simp
    with Cons.IH[of s1] Cons.prems(1) p1 show ?thesis by simp
  qed
qed

text \<open>
  On a backend that keeps the index, the index is reported present after a successful
  \<^verbatim>\<open>ensureIndex\<close>, and after a successful \<^verbatim>\<open>initialize\<close> behind the gate.
\<close>

lemma ensureIndex_reports_index:
  assumes "backend_keeps_index (this s)" and "ensureIndex s = (Inr (), s')"
  shows "fst (indices_exists (client (this s)) (indexName (this s)) (backend s')) = Inr True"
proof -
  let ?c = "client (this s)" and ?n = "indexName (this s)"
  from assms(1) have read: "\<And>b. snd (indices_exists ?c ?n b) = b"
    and created: "\<And>b. fst (indices_create ?c ?n b) = Inr () \<Longrightarrow>
        fst (indices_exists ?c ?n (snd (indices_create ?c ?n b))) = Inr True"
    by (simp_all add: backend_keeps_index_def)
  obtain a b1 where ex: "indices_exists ?c ?n (backend s) = (a, b1)"
    by (cases "indices_exists ?c ?n (backend s)")
  with read[of "backend s"] have b1: "b1 = backend s" by simp
  obtain r b2 where cr: "indices_create ?c ?n (backend s) = (r, b2)"
    by (cases "indices_create ?c ?n (backend s)")
  show ?thesis
  proof (cases a)
    case (Inl e)
    with assms(2) ex show ?thesis
      by (simp add: ensureIndex_def await_def invoke_def)
  next
    case (Inr present)
    show ?thesis
    proof (cases present)
      case True
      with Inr assms(2) ex b1 have "backend s' = backend s"
        by (auto simp: ensureIndex_def await_def invoke_def resolve_def)
      with True Inr ex show ?thesis by simp
    next
      case False
      with Inr assms(2) ex b1 cr have "r = Inr ()" "backend s' = b2"
        by (auto simp: ensureIndex_def await_def invoke_def resolve_def)
      with created[of "backend s"] cr show ?thesis by simp
    qed
  qed
qed

lemma initialize_connected_reports_index:
  assumes "backend_keeps_index (this s)" and "initialize_connected s = (Inr (), s')"
  shows "fst (indices_exists (client (this s)) (indexName (this s)) (backend s')) = Inr True"
proof -
  let ?P = "\<lambda>b. fst (indices_exists (client (this s)) (indexName (this s)) b) = Inr True"
  obtain r1 s1 where e: "ensureIndex s = (r1, s1)" by (cases "ensureIndex s")
  with assms(2) have r1: "r1 = Inr ()"
    by (cases r1) (simp_all add: initialize_connected_def await_def)
  from this_ensureIndex[OF e] have t: "this s1 = this s" .
  from ensureIndex_reports_index[OF assms(1)] e r1 have p1: "?P (backend s1)" by simp
  show ?thesis
  proof (cases "indexSettings (this s) \<noteq> None \<or> mapping (this s) \<noteq> None")
    case True
    with assms(2) e r1 t have "perform (configuration_steps (this s)) s1 = (Inr (), s')"
      by (simp add: initialize_connected_def await_def applyConfiguration_perform)
    moreover from assms(1) have
      "\<forall>step \<in> set (configuration_steps (this s)). \<forall>b. ?P b \<longrightarrow> ?P (snd (snd step b))"
      by (simp add: backend_keeps_index_def)
    ultimately show ?thesis
      using p1 by (rule perform_keeps[where P = ?P, rotated 2])
  next
    case False
    with assms(2) e r1 t have "s' = s1"
      by (simp add: initialize_connected_def await_def resolve_def)
    with p1 show ?thesis by simp
  qed
qed

text \<open>
  C7, amended. Every \<^verbatim>\<open>drop\<close> that returns first calls the client to delete the index
  of the object. If the deletion is rejected, that is the result and nothing else is
  done. Otherwise \<^verbatim>\<open>drop\<close> runs the whole of \<^verbatim>\<open>initialize\<close> on the backend the
  deletion left. The gate is not skipped: it pings up to and including the first
  answered ping, at least once, whether or not the client was connected before. Then
  the client is called for the existence check, for the creation exactly when that check
  reported the index absent, and for the configuration protocol when settings or a
  mapping are held, in order and until a call is rejected, whose rejection is the result.
  After \<^verbatim>\<open>drop\<close> has returned normally, none of these calls was rejected, the
  configuration calls carried the settings and the mapping the object holds, and, on a
  backend that keeps the index, the index exists again.
\<close>

theorem drop_runs_gate_and_initialize:
  assumes "drop_index s = Some (r, s')"
  shows "(case indices_delete (client (this s)) (indexName (this s)) (backend s) of
            (Inl e, b) \<Rightarrow>
              r = Inl e \<and>
              s' = s\<lparr>backend := b,
                     trace := trace s @ [(DeleteIndex (indexName (this s)), Some e)]\<rparr>
          | (Inr _, b) \<Rightarrow>
              (\<exists>sg errs.
                 waitForConnection
                   (s\<lparr>backend := b,
                      trace := trace s @ [(DeleteIndex (indexName (this s)), None)]\<rparr>) = Some sg \<and>
                 backend_calls (issued s sg) =
                   (DeleteIndex (indexName (this s)), None) #
                   map (\<lambda>e. (Ping 250, Some e)) errs @ [(Ping 250, None)] \<and>
                 perform (initialize_steps (this s) (backend sg)) sg = (r, s') \<and>
                 stops_at_rejection
                   (initialize_sequence (this s)
                      (fst (indices_exists (client (this s)) (indexName (this s)) (backend sg)) =
                         Inr False))
                   (issued sg s') r)) \<and>
         (backend_keeps_index (this s) \<and> r = Inr () \<longrightarrow>
            fst (indices_exists (client (this s)) (indexName (this s)) (backend s')) = Inr True)"
proof -
  let ?n = "indexName (this s)"
  obtain d b where del: "indices_delete (client (this s)) ?n (backend s) = (d, b)"
    by (cases "indices_delete (client (this s)) ?n (backend s)")
  show ?thesis
  proof (cases d)
    case (Inl e)
    with del assms drop_index_rejected[of s e b] show ?thesis
      by auto
  next
    case (Inr u)
    let ?s1 = "s\<lparr>backend := b, trace := trace s @ [(DeleteIndex ?n, None)]\<rparr>"
    from Inr del assms drop_index_deleted[of s u b] have "initialize ?s1 = Some (r, s')"
      by simp
    then obtain sg where w: "waitForConnection ?s1 = Some sg"
      and i: "initialize_connected sg = (r, s')"
      by (auto simp: initialize_def split: option.splits)
    from waitForConnection_returns[OF w] obtain errs where
      g: "this sg = this s" "trace sg = trace ?s1 @ gate_run errs" by auto
    have calls: "backend_calls (issued s sg) =
        (DeleteIndex ?n, None) # map (\<lambda>e. (Ping 250, Some e)) errs @ [(Ping 250, None)]"
      using g(2) backend_calls_gate_run[of errs]
      by (simp add: issued_def backend_calls_def)
    from i have p: "perform (initialize_steps (this s) (backend sg)) sg = (r, s')"
      by (simp add: initialize_connected_perform g(1))
    from perform_trace[OF p] have st: "stops_at_rejection
        (initialize_sequence (this s)
           (fst (indices_exists (client (this s)) ?n (backend sg)) = Inr False))
        (issued sg s') r"
      by (auto simp: map_fst_initialize_steps issued_def)
    have post: "backend_keeps_index (this s) \<and> r = Inr () \<longrightarrow>
        fst (indices_exists (client (this s)) ?n (backend s')) = Inr True"
      using initialize_connected_reports_index[of sg s'] i g(1) by auto
    from w calls p st have "\<exists>sg errs.
        waitForConnection ?s1 = Some sg \<and>
        backend_calls (issued s sg) =
          (DeleteIndex ?n, None) # map (\<lambda>e. (Ping 250, Some e)) errs @ [(Ping 250, None)] \<and>
        perform (initialize_steps (this s) (backend sg)) sg = (r, s') \<and>
        stops_at_rejection
          (initialize_sequence (this s)
             (fst (indices_exists (client (this s)) ?n (backend sg)) = Inr False))
          (issued sg s') r"
      by blast
    with del Inr post show ?thesis by simp
  qed
qed

text \<open>
  On the stub client, which keeps the index, a \<^verbatim>\<open>drop\<close> of an existing index leaves the
  index existing again, with the settings and the mapping of the object.
\<close>

theorem drop_runs_gate_and_initialize_witness:
  "drop_index (demo_state 0 [''films'']) =
     Some (Inr (),
           \<lparr> this = demo_engine,
             backend = (demo_backend 0 [''films''])
               \<lparr>stored_settings := [(''films'', demo_settings)],
                stored_mappings := [(''films'', ''film'', JObj [(''film'', demo_mapping)])]\<rparr>,
             trace = (DeleteIndex ''films'', None) # gate_run [] @
               [(IndexExists ''films'', None), (CreateIndex ''films'', None),
                (CloseIndex ''films'', None), (PutIndexSettings ''films'' demo_settings, None),
                (PutIndexMapping ''films'' ''film'' (JObj [(''film'', demo_mapping)]), None),
                (OpenIndex ''films'', None), (RefreshIndex ''films'', None)] \<rparr>) \<and>
   fst (indices_exists stub_client ''films''
          ((demo_backend 0 [''films''])
             \<lparr>stored_settings := [(''films'', demo_settings)],
              stored_mappings := [(''films'', ''film'', JObj [(''film'', demo_mapping)])]\<rparr>)) = Inr True"
proof -
  let ?s' = "\<lparr> this = demo_engine,
             backend = (demo_backend 0 [''films''])
               \<lparr>stored_settings := [(''films'', demo_settings)],
                stored_mappings := [(''films'', ''film'', JObj [(''film'', demo_mapping)])]\<rparr>,
             trace = (DeleteIndex ''films'', None) # gate_run [] @
               [(IndexExists ''films'', None), (CreateIndex ''films'', None),
                (CloseIndex ''films'', None), (PutIndexSettings ''films'' demo_settings, None),
                (PutIndexMapping ''films'' ''film'' (JObj [(''film'', demo_mapping)]), None),
                (OpenIndex ''films'', None), (RefreshIndex ''films'', None)] \<rparr>"
  have d: "drop_index (demo_state 0 [''films'']) = Some (Inr (), ?s')"
    by (simp add: waitForConnection.simps demo_defs run_defs gate_run_def)
  have k: "backend_keeps_index (this (demo_state 0 [''films'']))"
    by (auto simp: backend_keeps_index_def configuration_steps_def demo_defs split: if_splits)
  have t: "client (this (demo_state 0 [''films''])) = stub_client"
    "indexName (this (demo_state 0 [''films''])) = ''films''"
    by (simp_all add: demo_state_def demo_engine_def new_ElasticsearchSearchEngine_def)
  from drop_runs_gate_and_initialize [OF d] k
  have "fst (indices_exists stub_client ''films'' (backend ?s')) = Inr True"
    unfolding t by blast
  with d show ?thesis by simp
qed

subsection \<open>The body of the mapping call\<close>

text \<open>
  Every mapping call recorded by an \<^verbatim>\<open>initialize\<close> that returns is for an object
  constructed with a mapping, and its body is the object the constructor stored; an
  object constructed without a mapping issues none, with or without settings.
\<close>

lemma putMapping_body_stored:
  assumes "this s = new_ElasticsearchSearchEngine c iName tName iSettings iMapping"
    and "initialize s = Some (r, s')"
    and "PutIndexMapping n t b \<in> fst ` set (issued s s')"
  shows "\<exists>m. iMapping = Some m \<and> n = iName \<and> t = tName \<and>
             b = JObj (own_properties_after_set tName m)"
proof -
  from initialize_returns[OF assms(2)] obtain errs absent evs where
    t: "trace s' = trace s @ gate_run errs @ evs"
    and st: "stops_at_rejection (initialize_sequence (this s) absent) evs r"
    by blast
  have iss: "issued s s' = gate_run errs @ evs"
    using t by (simp add: issued_def)
  have gate: "PutIndexMapping n t b \<notin> fst ` set (gate_run errs)"
    by (auto simp: gate_run_def)
  from assms(3) iss have "PutIndexMapping n t b \<in> fst ` set (gate_run errs) \<union> fst ` set evs"
    by (simp add: image_Un)
  with gate have "PutIndexMapping n t b \<in> fst ` set evs" by blast
  with stops_at_rejection_subset[OF st]
  have "PutIndexMapping n t b \<in> set (initialize_sequence (this s) absent)"
    by blast
  then show ?thesis
    by (auto simp: assms(1) initialize_sequence_def configuration_sequence_def
          new_ElasticsearchSearchEngine_def split: if_splits option.splits)
qed

text \<open>For every type name but \<^verbatim>\<open>__proto__\<close> the body is the mapping under the type name.\<close>

lemma putMapping_body_nested:
  assumes "this s = new_ElasticsearchSearchEngine c iName tName iSettings iMapping"
    and "initialize s = Some (r, s')"
    and "PutIndexMapping n t b \<in> fst ` set (issued s s')"
    and "tName \<noteq> ''__proto__''"
  shows "\<exists>m. iMapping = Some m \<and> n = iName \<and> t = tName \<and> b = JObj [(tName, m)]"
  using putMapping_body_stored[OF assms(1-3)] assms(4)
  by (simp add: own_properties_after_set_def)

text \<open>
  C9. The constructor nests the mapping with \<^verbatim>\<open>this.mapping[typeName] = indexMapping\<close>.
  For the type name \<^verbatim>\<open>__proto__\<close> that assignment sets the prototype of the object and
  adds no property: \<^verbatim>\<open>initialize\<close> succeeds and the client is sent the mapping call with
  an empty object as its body, where the mapping under the key \<^verbatim>\<open>__proto__\<close> is claimed.
\<close>

theorem putMapping_body_empty_for_proto:
  "initialize
     \<lparr> this = new_ElasticsearchSearchEngine stub_client ''films'' ''__proto__'' None (Some demo_mapping),
       backend = demo_backend 0 [''films''], trace = [] \<rparr> =
   Some (Inr (),
         \<lparr> this = new_ElasticsearchSearchEngine stub_client ''films'' ''__proto__'' None (Some demo_mapping),
           backend = (demo_backend 0 [''films''])
             \<lparr>stored_mappings := [(''films'', ''__proto__'', JObj [])]\<rparr>,
           trace = gate_run [] @
             [(IndexExists ''films'', None), (CloseIndex ''films'', None),
              (PutIndexMapping ''films'' ''__proto__'' (JObj []), None),
              (OpenIndex ''films'', None), (RefreshIndex ''films'', None)] \<rparr>)"
  by (simp add: waitForConnection.simps demo_defs run_defs gate_run_def)

subsection \<open>The fields of the object\<close>

lemma this_index: "this (snd (index its s)) = this s"
  by (simp add: index_def await_def Let_def invoke_def reject_def resolve_def split: prod.splits sum.splits)

lemma this_search: "this (snd (search convert q s)) = this s"
  by (simp add: search_def await_def invoke_def emit_def console_log_def resolve_def split: prod.splits sum.splits)

lemma run_operation_this:
  assumes "run_operation convert x s = Some (r, s')"
  shows "this s' = this s"
proof (cases x)
  case Initialize
  with assms initialize_returns[of s r s'] show ?thesis by simp
next
  case (Index its)
  with assms this_index[of its s] show ?thesis by (cases "index its s") auto
next
  case (Search q)
  with assms this_search[of convert q s] show ?thesis
    by (cases "search convert q s") (auto simp: forget_def split: sum.splits)
next
  case Drop
  with assms drop_index_returns[of s r s'] show ?thesis by simp
qed

lemma run_operations_this:
  "run_operations convert xs s = Some s' \<Longrightarrow> this s' = this s"
proof (induction xs arbitrary: s)
  case Nil
  then show ?case by simp
next
  case (Cons x xs)
  then obtain r s1 where 1: "run_operation convert x s = Some (r, s1)"
    and 2: "run_operations convert xs s1 = Some s'"
    by (auto split: option.splits)
  from Cons.IH[OF 2] run_operation_this[OF 1] show ?case by simp
qed

text \<open>
  C8. After any list of public operations that returns, whichever of them were rejected,
  the index name, the type name, the settings, the mapping and the client of the object
  are those the constructor stored.
\<close>

theorem fields_fixed_at_construction:
  assumes "this s = new_ElasticsearchSearchEngine c iName tName iSettings iMapping"
    and "run_operations convert xs s = Some s'"
  shows "indexName (this s') = iName \<and> typeName (this s') = tName \<and>
         indexSettings (this s') = iSettings \<and>
         mapping (this s') = map_option (\<lambda>m. JObj (own_properties_after_set tName m)) iMapping \<and>
         client (this s') = c \<and>
         this s' = new_ElasticsearchSearchEngine c iName tName iSettings iMapping"
proof -
  from run_operations_this[OF assms(2)] assms(1)
  have "this s' = new_ElasticsearchSearchEngine c iName tName iSettings iMapping" by simp
  then show ?thesis
    by (cases iMapping) (simp_all add: new_ElasticsearchSearchEngine_def)
qed

theorem fields_fixed_at_construction_witness:
  "this (demo_state (Suc 0) []) =
     new_ElasticsearchSearchEngine stub_client ''films'' ''film'' (Some demo_settings) (Some demo_mapping) \<and>
   (\<exists>s'. run_operations demo_convert
            [Initialize, Index demo_items, Search (JStr ''heute''), Search JNull, Drop, Drop]
            (demo_state (Suc 0) []) = Some s' \<and>
      indexName (this s') = ''films'' \<and> typeName (this s') = ''film'' \<and>
      indexSettings (this s') = Some demo_settings \<and>
      mapping (this s') = Some (JObj [(''film'', demo_mapping)]) \<and>
      client (this s') = stub_client)"
proof -
  have h: "this (demo_state (Suc 0) []) =
     new_ElasticsearchSearchEngine stub_client ''films'' ''film'' (Some demo_settings) (Some demo_mapping)"
    by (simp add: demo_state_def demo_engine_def)
  have "\<exists>s'. run_operations demo_convert
            [Initialize, Index demo_items, Search (JStr ''heute''), Search JNull, Drop, Drop]
            (demo_state (Suc 0) []) = Some s'"
    by (simp add: waitForConnection.simps demo_defs run_defs index_def search_def forget_def
          demo_convert_def demo_bulk_response_def)
  then obtain s' where r: "run_operations demo_convert
            [Initialize, Index demo_items, Search (JStr ''heute''), Search JNull, Drop, Drop]
            (demo_state (Suc 0) []) = Some s'" by blast
  from fields_fixed_at_construction [OF h r] h r show ?thesis
    by (auto simp: own_properties_after_set_def)
qed

end
